theory Spec2Isabelle
  imports Main "HOL-Library.Sublist"
begin

section \<open>Python string operations used by the two scripts\<close>

text \<open>
  A document is a Python \<open>str\<close>; it is modelled as a \<open>string\<close>, one \<open>char\<close> per code point
  (documents over the 8-bit range). \<open>find_str pat s\<close> is \<open>s.find(pat)\<close> with \<open>None\<close> for
  \<open>-1\<close>, \<open>contains pat s\<close> is \<open>pat in s\<close>.
\<close>

fun find_str :: "string \<Rightarrow> string \<Rightarrow> nat option" where
  "find_str pat [] = (if pat = [] then Some 0 else None)"
| "find_str pat (c # cs) =
     (if prefix pat (c # cs) then Some 0 else map_option Suc (find_str pat cs))"

definition contains :: "string \<Rightarrow> string \<Rightarrow> bool" where
  "contains pat s = (find_str pat s \<noteq> None)"

text \<open>\<open>str.isspace\<close> on the code points below 256, and \<open>str.strip()\<close>.\<close>

definition is_space :: "char \<Rightarrow> bool" where
  "is_space c = ((of_char c :: nat) \<in> {9, 10, 11, 12, 13, 28, 29, 30, 31, 32, 133, 160})"

definition strip :: "string \<Rightarrow> string" where
  "strip s = rev (dropWhile is_space (rev (dropWhile is_space s)))"

text \<open>
  \<open>s.split(sep)\<close> for a non-empty separator: the pieces between the successive
  occurrences of \<open>sep\<close>, found left to right. (Python raises \<open>ValueError\<close> on an empty
  separator; the scripts only split on a fixed non-empty literal.)
\<close>

function split_str :: "string \<Rightarrow> string \<Rightarrow> string list" where
  "split_str sep s =
     (if sep = [] then [s]
      else case find_str sep s of
             None \<Rightarrow> [s]
           | Some i \<Rightarrow> take i s # split_str sep (drop (i + length sep) s))"
  by pat_completeness auto
termination
proof (relation "measure (\<lambda>(sep, s). length s)")
  show "wf (measure (\<lambda>(sep, s). length s))" by simp
next
  fix sep s :: string and i :: nat
  assume "sep \<noteq> []" and "find_str sep s = Some i"
  then have "0 < length sep" and "0 < length s"
    by (cases s; simp)+
  then have "length s - (i + length sep) < length s"
    by linarith
  then show "((sep, drop (i + length sep) s), (sep, s)) \<in> measure (\<lambda>(sep, s). length s)"
    by simp
qed

declare split_str.simps [simp del]

section \<open>The Extractor: \<open>re.findall(pattern, content, re.DOTALL)\<close>\<close>

text \<open>
  Both scripts extract the blocks with
  \<^verbatim>\<open>pattern = r'```\{python\}(.*?)```'\<close> and
  \<^verbatim>\<open>blocks = re.findall(pattern, content, re.DOTALL)\<close>.
  The pattern is the literal opener \<open>fence_open\<close>, a lazy group that matches any
  characters (newlines too, under \<open>DOTALL\<close>), and the literal \<open>fence\<close>. \<open>findall\<close> scans
  the start positions left to right. At a position where the opener stands and the fence
  occurs somewhere after it, the lazy group takes the text up to the first such fence; the
  group is the block, and the scan goes on behind that fence. At every other position the
  match fails and the scan moves one character on.
\<close>

definition fence :: string where
  "fence = ''```''"

definition fence_open :: string where
  "fence_open = ''```{python}''"

function findall_blocks :: "string \<Rightarrow> string list" where
  "findall_blocks [] = []"
| "findall_blocks (c # cs) =
     (if prefix fence_open (c # cs) then
        (let r = drop (length fence_open) (c # cs) in
         case find_str fence r of
           Some j \<Rightarrow> take j r # findall_blocks (drop (j + length fence) r)
         | None \<Rightarrow> findall_blocks cs)
      else findall_blocks cs)"
  by pat_completeness auto
termination
proof (relation "measure length")
  show "wf (measure length)" by simp
next
  fix c :: char and cs r :: string and j :: nat
  assume "r = drop (length fence_open) (c # cs)" and "find_str fence r = Some j"
  then have "length r \<le> length (c # cs)"
    by simp
  moreover have "0 < length fence" and "0 < length (c # cs)"
    by (simp_all add: fence_def)
  ultimately have "length r - (j + length fence) < length (c # cs)"
    by linarith
  then show "(drop (j + length fence) r, c # cs) \<in> measure length"
    by simp
qed simp_all

declare findall_blocks.simps(2) [simp del]

section \<open>The interpreter as a parameter\<close>

text \<open>
  \<open>ast.parse\<close>, \<open>exec\<close>, \<open>eval\<close> and the methods that an f-string calls to format an
  object belong to the Python interpreter and to the code of the document, not to the
  scripts, so the scripts are modelled for every behaviour these can have.

  \<^item> \<open>ast.parse(text)\<close> returns a tree, raises \<open>SyntaxError\<close>, or raises another instance
    of \<open>Exception\<close> (\<open>RecursionError\<close>, \<open>MemoryError\<close>, \<open>ValueError\<close>); these are built-in
    exceptions, whose string form is a text.
  \<^item> \<open>exec(code, test_env)\<close> runs arbitrary code on the dictionary \<open>test_env\<close>, which it
    mutates in place. The call returns, or raises an exception, and in both cases leaves a
    dictionary behind; or it does not return to the script at all (the code runs forever,
    or ends the process by itself).
  \<^item> \<open>eval(call, test_env)\<close> does the same and returns a value.
  \<^item> \<^verbatim>\<open>{result}\<close> and \<^verbatim>\<open>{e}\<close> in an f-string call \<open>__format__\<close> and \<open>__str__\<close> of the
    object, which the document may have defined: they return a text or raise, like any
    other code, and run on the same dictionary.
  \<^item> \<^verbatim>\<open>except Exception\<close> catches the instances of \<open>Exception\<close> and lets every other
    exception pass (\<open>SystemExit\<close>, \<open>KeyboardInterrupt\<close>, \<open>GeneratorExit\<close>).
\<close>

type_synonym 'v env = "string \<rightharpoonup> 'v"

datatype ('a, 'v, 'e) result = Returns 'a "'v env" | Raises 'e "'v env" | Never_returns

record ('v, 'e) interpreter =
  py_exec :: "string \<Rightarrow> 'v env \<Rightarrow> (unit, 'v, 'e) result"
  py_eval :: "string \<Rightarrow> 'v env \<Rightarrow> ('v, 'v, 'e) result"
  py_format :: "'v \<Rightarrow> 'v env \<Rightarrow> (string, 'v, 'e) result"
  py_str :: "'e \<Rightarrow> 'v env \<Rightarrow> (string, 'v, 'e) result"
  is_Exception :: "'e \<Rightarrow> bool"

datatype parse_result = Parsed | Raises_SyntaxError string | Raises_other_Exception string

text \<open>
  \<^verbatim>\<open>with open(...) as f: content = f.read()\<close> gives the text of the file or raises an
  \<open>Exception\<close> (\<open>OSError\<close>, \<open>UnicodeDecodeError\<close>) with the given string form.
\<close>

datatype read_result = Content string | Read_error string


section \<open>The Syntax Validator (\<open>test_syntax.py\<close>)\<close>

text \<open>The lines the script prints, and the state of a run: those lines and the texts handed
  to \<open>ast.parse\<close>, both in order.\<close>

datatype syntax_line =
    Testing_syntax
  | Syntax_found nat
  | Block_OK nat
  | Block_SYNTAX_ERROR nat string
  | Block_content_preview string
  | All_passed
  | Error_reading_file string

record syntax_state =
  syntax_printed :: "syntax_line list"
  parsed :: "string list"

text \<open>
  \<^verbatim>\<open>for i, block in enumerate(blocks, 1)\<close>. The loop runs through, or is left by
  \<^verbatim>\<open>return False\<close> in the handler of \<open>SyntaxError\<close>, or by another exception of
  \<open>ast.parse\<close>, which that handler does not catch.
\<close>

datatype loop_end = Loop_done | Returned_False | Raised string

fun syntax_loop ::
  "(string \<Rightarrow> parse_result) \<Rightarrow> nat \<Rightarrow> string list \<Rightarrow> syntax_state \<Rightarrow> loop_end \<times> syntax_state"
where
  "syntax_loop ast_parse i [] st = (Loop_done, st)"
| "syntax_loop ast_parse i (block # rest) st =
     (if strip block \<noteq> [] then
        (case ast_parse (strip block) of
           Parsed \<Rightarrow>
             syntax_loop ast_parse (Suc i) rest
               (st\<lparr>parsed := parsed st @ [strip block],
                   syntax_printed := syntax_printed st @ [Block_OK i]\<rparr>)
         | Raises_SyntaxError e \<Rightarrow>
             (Returned_False,
              st\<lparr>parsed := parsed st @ [strip block],
                  syntax_printed := syntax_printed st @
                    [Block_SYNTAX_ERROR i e, Block_content_preview (take 100 (strip block))]\<rparr>)
         | Raises_other_Exception e \<Rightarrow>
             (Raised e, st\<lparr>parsed := parsed st @ [strip block]\<rparr>))
      else syntax_loop ast_parse (Suc i) rest st)"

text \<open>
  The body of the function is one \<^verbatim>\<open>try\<close> statement: its handler
  \<^verbatim>\<open>except Exception as e: print(f"Error reading file: {e}"); return False\<close>
  receives the exception of the file read and every exception that leaves the loop.
\<close>

definition test_multiprocessing_syntax ::
  "read_result \<Rightarrow> (string \<Rightarrow> parse_result) \<Rightarrow> bool \<times> syntax_state"
where
  "test_multiprocessing_syntax file ast_parse =
     (let st0 = \<lparr>syntax_printed = [Testing_syntax], parsed = []\<rparr> in
      case file of
        Read_error e \<Rightarrow>
          (False, st0\<lparr>syntax_printed := syntax_printed st0 @ [Error_reading_file e]\<rparr>)
      | Content content \<Rightarrow>
          (let blocks = findall_blocks content;
               st1 = st0\<lparr>syntax_printed := syntax_printed st0 @ [Syntax_found (length blocks)]\<rparr>
           in case syntax_loop ast_parse 1 blocks st1 of
                (Loop_done, st2) \<Rightarrow>
                  (True, st2\<lparr>syntax_printed := syntax_printed st2 @ [All_passed]\<rparr>)
              | (Returned_False, st2) \<Rightarrow> (False, st2)
              | (Raised e, st2) \<Rightarrow>
                  (False, st2\<lparr>syntax_printed := syntax_printed st2 @ [Error_reading_file e]\<rparr>)))"


section \<open>The Execution Validator (\<open>test_execution.py\<close>)\<close>


definition skip_patterns :: "string list" where
  "skip_patterns =
     [''pool.map('', ''ProcessPoolExecutor'', ''executor.map'', ''mp.Pool('',
      ''multiprocessing.Pool('']"

definition main_guard :: string where
  \<open>main_guard = ''if __name__ == "__main__"''\<close>

text \<open>The lines printed, and the state of a run: the lines, the calls made to \<open>exec\<close> and
  \<open>eval\<close> with their text, and the dictionary \<open>test_env\<close>. A line that shows an object
  holds the text that the f-string made of it.\<close>

datatype line =
    Testing_execution
  | Found nat
  | Block_SKIPPED nat
  | Block_EXECUTED nat
  | Block_ERROR nat string
  | Testing_functions
  | Probe_OK string string
  | Probe_ERROR string string
  | Probe_NOT_FOUND string
  | Completed
  | Error string

datatype call = Exec string | Eval string

record 'v state =
  printed :: "line list"
  called :: "call list"
  test_env :: "'v env"

text \<open>
  A statement or a loop completes, or lets an exception propagate (the state is the one
  reached when it was raised), or does not return.
\<close>

datatype ('a, 'v, 'e) outcome = Normal 'a | Propagates 'e "'v state" | Stuck

text \<open>
  The text handed to \<open>exec\<close> for a block that is executed:
  \<^verbatim>\<open>if 'if __name__ == "__main__"' in block_code:\<close>
  \<^verbatim>\<open>    main_split = block_code.split('if __name__ == "__main__"')[0]\<close>
  \<^verbatim>\<open>    block_code = main_split.strip()\<close>
\<close>

definition strip_main :: "string \<Rightarrow> string" where
  "strip_main block_code =
     (if contains main_guard block_code
      then strip (split_str main_guard block_code ! 0)
      else block_code)"

text \<open>
  A handler \<^verbatim>\<open>except Exception as e: print(f"... {e}")\<close> that receives the exception
  \<open>e\<close>: an exception outside \<open>Exception\<close> passes it. Otherwise the f-string asks for the
  string form of \<open>e\<close>; the line is printed when that returns, and when it raises, the new
  exception leaves the handler. \<open>report\<close> makes the line from the string form.
\<close>

definition except_Exception ::
  "('v, 'e) interpreter \<Rightarrow> (string \<Rightarrow> line) \<Rightarrow> 'e \<Rightarrow> 'v state \<Rightarrow> ('v state, 'v, 'e) outcome"
where
  "except_Exception I report e st =
     (if is_Exception I e then
        (case py_str I e (test_env st) of
           Returns msg env' \<Rightarrow>
             Normal (st\<lparr>printed := printed st @ [report msg], test_env := env'\<rparr>)
         | Raises e' env' \<Rightarrow> Propagates e' (st\<lparr>test_env := env'\<rparr>)
         | Never_returns \<Rightarrow> Stuck)
      else Propagates e st)"

text \<open>
  \<^verbatim>\<open>try: exec(block_code, test_env); print(f"  Block {i}: EXECUTED")\<close>
  \<^verbatim>\<open>except Exception as e: print(f"  Block {i}: ERROR - {e}"); continue\<close>
\<close>

definition try_exec ::
  "('v, 'e) interpreter \<Rightarrow> nat \<Rightarrow> string \<Rightarrow> 'v state \<Rightarrow> ('v state, 'v, 'e) outcome"
where
  "try_exec I i block_code st =
     (case py_exec I block_code (test_env st) of
        Returns u env' \<Rightarrow>
          Normal (st\<lparr>printed := printed st @ [Block_EXECUTED i],
                      called := called st @ [Exec block_code],
                      test_env := env'\<rparr>)
      | Raises e env' \<Rightarrow>
          except_Exception I (Block_ERROR i) e
            (st\<lparr>called := called st @ [Exec block_code], test_env := env'\<rparr>)
      | Never_returns \<Rightarrow> Stuck)"

text \<open>The body of \<^verbatim>\<open>for i, block in enumerate(blocks, 1)\<close>; each \<^verbatim>\<open>continue\<close> ends it.\<close>

definition run_block ::
  "('v, 'e) interpreter \<Rightarrow> nat \<Rightarrow> string \<Rightarrow> 'v state \<Rightarrow> ('v state, 'v, 'e) outcome"
where
  "run_block I i block st =
     (let block_code = strip block in
      if block_code = [] then Normal st
      else if list_ex (\<lambda>skip. contains skip block_code) skip_patterns then
        Normal (st\<lparr>printed := printed st @ [Block_SKIPPED i]\<rparr>)
      else try_exec I i (strip_main block_code) st)"

fun run_blocks ::
  "('v, 'e) interpreter \<Rightarrow> nat \<Rightarrow> string list \<Rightarrow> 'v state \<Rightarrow> ('v state, 'v, 'e) outcome"
where
  "run_blocks I i [] st = Normal st"
| "run_blocks I i (block # rest) st =
     (case run_block I i block st of
        Normal st' \<Rightarrow> run_blocks I (Suc i) rest st'
      | Propagates e st' \<Rightarrow> Propagates e st'
      | Stuck \<Rightarrow> Stuck)"






section \<open>Documents made of fence pairs\<close>

text \<open>
  The vocabulary of the statements about the Extractor. \<open>document pairs rest\<close> is the
  text that consists of the given fence pairs in order, each preceded by its gap (the text
  before its opener) and written as opener, body, fence, with \<open>rest\<close> behind the last pair.
  A body is well formed when the opener is followed by a newline (the body starts with it),
  the closing fence stands at the start of a line (the body ends with a newline) and that
  fence is the first one behind the opener (no fence inside the body).
\<close>

definition newline :: char where
  "newline = CHR 0x0A"

fun document :: "(string \<times> string) list \<Rightarrow> string \<Rightarrow> string" where
  "document [] rest = rest"
| "document ((gap, body) # pairs) rest = gap @ fence_open @ body @ fence @ document pairs rest"

definition well_formed_body :: "string \<Rightarrow> bool" where
  "well_formed_body body =
     (body \<noteq> [] \<and> hd body = newline \<and> last body = newline \<and> \<not> contains fence body)"

section \<open>Vocabulary of the statements about the validators\<close>

text \<open>
  The lines \<open>Block i: OK\<close> that the Syntax Validator prints for a list of blocks that all
  parse, the first of them numbered \<open>i\<close>: one line per non-blank block.
\<close>

fun ok_lines :: "nat \<Rightarrow> string list \<Rightarrow> syntax_line list" where
  "ok_lines i [] = []"
| "ok_lines i (block # rest) =
     (if strip block \<noteq> [] then [Block_OK i] else []) @ ok_lines (Suc i) rest"

text \<open>
  The string form of the \<open>NameError\<close> that Python raises when code uses a name that is
  bound neither in the dictionary nor among the builtins.
\<close>

definition name_error :: "string \<Rightarrow> string" where
  "name_error f = ''name '' @ [CHR 0x27] @ f @ [CHR 0x27] @ '' is not defined''"






section \<open>Concrete programs\<close>

text \<open>
  The statements below hold for every behaviour of the interpreter. To evaluate the
  scripts on concrete documents, these tables give what Python does on a few programs.
  The environment maps a name to the value bound to it: an object written as its string
  form, a function written as the \<open>def\<close> statement that made it, or an object whose
  \<open>__str__\<close> raises \<open>ValueError\<close> with the given message. An exception is an instance of
  \<open>Exception\<close> with the given string form, a \<open>SystemExit\<close>, or an instance of \<open>Exception\<close>
  whose \<open>__str__\<close> raises the given exception. The tables list the bindings the programs
  make (the entry \<open>__builtins__\<close> that \<open>exec\<close> adds to the dictionary is left out), and a
  program that is not in the table of \<open>exec\<close> is taken to do nothing.

  \<open>python\<close> has programs that return or raise errors; \<open>python_hard\<close> adds programs that
  call \<open>sys.exit\<close>, raise an exception without a string form, or loop forever.
  \<open>deep_sum\<close> is the sum \<open>1+1+...+1\<close> of 5000 terms, on which \<open>ast.parse\<close> exceeds the
  recursion limit.
\<close>

datatype pyval =
    Py_obj string
  | Py_function string
  | Py_class string
  | Py_module string
  | Py_unprintable string

datatype pyexc = Py_Exception string | Py_SystemExit string | Py_unprintable_Exception pyexc

definition deep_sum :: string where
  "deep_sum = ''1+'' @ concat (replicate 4998 ''1+'') @ ''1''"

definition demo_parse :: "string \<Rightarrow> parse_result" where
  "demo_parse text =
     (if text = ''def f(:'' then Raises_SyntaxError ''invalid syntax (<unknown>, line 1)''
      else if text = deep_sum then
        Raises_other_Exception ''maximum recursion depth exceeded during ast construction''
      else Parsed)"

definition demo_exec :: "string \<Rightarrow> pyval env \<Rightarrow> (unit, pyval, pyexc) result" where
  \<open>demo_exec code env =
     (if code = ''def f(): return 1'' then Returns () (env(''f'' \<mapsto> Py_function code))
      else if code = ''f()'' then
        (if env ''f'' = None then Raises (Py_Exception (name_error ''f'')) env
         else Returns () env)
      else if code = ''from concurrent.futures import ProcessPoolExecutor\<newline>def f(): return 1'' then
        Returns () (env(''ProcessPoolExecutor'' \<mapsto> Py_class ''ProcessPoolExecutor'',
                        ''f'' \<mapsto> Py_function ''def f(): return 1''))
      else if code = ''import time'' then
        Returns () (env(''time'' \<mapsto> Py_module ''time''))
      else if code = ''x = 1\<newline>raise ValueError("boom")'' then
        Raises (Py_Exception ''boom'') (env(''x'' \<mapsto> Py_obj ''1''))
      else if code = ''def square_number(x): return x * x'' then
        Returns () (env(''square_number'' \<mapsto> Py_function code))
      else if code = ''def sum_reducer(a, b): raise ValueError("no")'' then
        Returns () (env(''sum_reducer'' \<mapsto> Py_function code))
      else if code = ''class U:\<newline>    def __str__(self): raise ValueError("bad str")\<newline>def square_mapper(x): return U()'' then
        Returns () (env(''U'' \<mapsto> Py_class ''U'', ''square_mapper'' \<mapsto> Py_function code))
      else Returns () env)\<close>

definition demo_eval :: "string \<Rightarrow> pyval env \<Rightarrow> (pyval, pyval, pyexc) result" where
  \<open>demo_eval call env =
     (if call = ''square_number(5)''
         \<and> env ''square_number'' = Some (Py_function ''def square_number(x): return x * x'')
      then Returns (Py_obj ''25'') env
      else if call = ''sum_reducer(10, 20)''
         \<and> env ''sum_reducer'' = Some (Py_function ''def sum_reducer(a, b): raise ValueError("no")'')
      then Raises (Py_Exception ''no'') env
      else if call = ''square_mapper(5)''
         \<and> env ''square_mapper'' = Some (Py_function ''class U:\<newline>    def __str__(self): raise ValueError("bad str")\<newline>def square_mapper(x): return U()'')
      then Returns (Py_unprintable ''bad str'') env
      else Raises (Py_Exception ''unsupported'') env)\<close>

definition demo_format :: "pyval \<Rightarrow> pyval env \<Rightarrow> (string, pyval, pyexc) result" where
  "demo_format v env =
     (case v of
        Py_obj text \<Rightarrow> Returns text env
      | Py_function d \<Rightarrow> Returns ''<function>'' env
      | Py_class name \<Rightarrow> Returns ''<class>'' env
      | Py_module name \<Rightarrow> Returns ''<module>'' env
      | Py_unprintable msg \<Rightarrow> Raises (Py_Exception msg) env)"

definition demo_str :: "pyexc \<Rightarrow> pyval env \<Rightarrow> (string, pyval, pyexc) result" where
  "demo_str e env =
     (case e of
        Py_Exception msg \<Rightarrow> Returns msg env
      | Py_SystemExit msg \<Rightarrow> Returns msg env
      | Py_unprintable_Exception e' \<Rightarrow> Raises e' env)"

definition demo_is_Exception :: "pyexc \<Rightarrow> bool" where
  "demo_is_Exception e = (case e of Py_SystemExit msg \<Rightarrow> False | _ \<Rightarrow> True)"

definition python :: "(pyval, pyexc) interpreter" where
  "python = \<lparr>py_exec = demo_exec, py_eval = demo_eval, py_format = demo_format,
             py_str = demo_str, is_Exception = demo_is_Exception\<rparr>"




section \<open>Properties of the string operations\<close>

lemma find_str_None_iff:
  "find_str pat s = None \<longleftrightarrow> (\<forall>p\<le>length s. \<not> prefix pat (drop p s))"
proof (induction s)
  case Nil
  then show ?case by simp
next
  case (Cons c cs)
  have "(\<forall>p\<le>length (c # cs). \<not> prefix pat (drop p (c # cs))) \<longleftrightarrow>
        \<not> prefix pat (c # cs) \<and> (\<forall>q\<le>length cs. \<not> prefix pat (drop q cs))"
    (is "?L \<longleftrightarrow> ?R")
  proof
    assume l: ?L
    from l have "\<not> prefix pat (drop 0 (c # cs))" by blast
    moreover have "\<not> prefix pat (drop q cs)" if "q \<le> length cs" for q
      using l [rule_format, of "Suc q"] that by simp
    ultimately show ?R by simp
  next
    assume r: ?R
    show ?L
    proof (intro allI impI)
      fix p assume "p \<le> length (c # cs)"
      then show "\<not> prefix pat (drop p (c # cs))"
        using r by (cases p) auto
    qed
  qed
  with Cons.IH show ?case by simp
qed

lemma find_str_Some_iff:
  "find_str pat s = Some i \<longleftrightarrow>
     i \<le> length s \<and> prefix pat (drop i s) \<and> (\<forall>p<i. \<not> prefix pat (drop p s))"
proof (induction s arbitrary: i)
  case Nil
  then show ?case by auto
next
  case (Cons c cs)
  show ?case
  proof (cases "prefix pat (c # cs)")
    case True
    have "i = 0" if "\<forall>p<i. \<not> prefix pat (drop p (c # cs))"
    proof (rule ccontr)
      assume "i \<noteq> 0"
      then have "0 < i" by simp
      with that have "\<not> prefix pat (drop 0 (c # cs))" by blast
      with True show False by simp
    qed
    with True show ?thesis by auto
  next
    case False
    show ?thesis
    proof (cases i)
      case 0
      with False show ?thesis by simp
    next
      case (Suc j)
      have "(\<forall>p<Suc j. \<not> prefix pat (drop p (c # cs))) \<longleftrightarrow> (\<forall>q<j. \<not> prefix pat (drop q cs))"
        (is "?L \<longleftrightarrow> ?R")
      proof
        assume l: ?L
        show ?R
        proof (intro allI impI)
          fix q assume "q < j"
          with l [rule_format, of "Suc q"] show "\<not> prefix pat (drop q cs)" by simp
        qed
      next
        assume r: ?R
        show ?L
        proof (intro allI impI)
          fix p assume "p < Suc j"
          with r False show "\<not> prefix pat (drop p (c # cs))" by (cases p) auto
        qed
      qed
      with False Suc Cons.IH [of j] show ?thesis by auto
    qed
  qed
qed


lemma contains_iff: "contains pat s \<longleftrightarrow> (\<exists>p\<le>length s. prefix pat (drop p s))"
  by (simp add: contains_def find_str_None_iff)

lemma fence_open_unbordered:
  "\<forall>k\<in>{1..<length fence_open}. \<not> prefix (drop k fence_open) fence_open"
  by code_simp

lemma prefix_straddle:
  assumes "prefix pat (drop p (g @ s))" and "p < length g" and "\<not> prefix pat (drop p g)"
  shows "\<exists>k. 0 < k \<and> k < length pat \<and> take k pat = drop p g \<and> prefix (drop k pat) s"
proof -
  from assms(2) have "drop p (g @ s) = drop p g @ s" by simp
  with assms(1,3) obtain us where us: "pat = drop p g @ us" "prefix us s"
    by (auto simp: prefix_append)
  let ?k = "length (drop p g)"
  from assms(2) have "0 < ?k" by simp
  moreover have "?k < length pat"
  proof (rule ccontr)
    assume "\<not> ?k < length pat"
    moreover from us(1) have "length pat = ?k + length us"
      by (metis length_append)
    ultimately have "us = []" by simp
    with us(1) assms(3) show False by simp
  qed
  moreover from us(1) have "take ?k pat = drop p g" "drop ?k pat = us" by simp_all
  ultimately show ?thesis using us(2) by blast
qed

lemma no_opener_in_gap:
  assumes "\<not> contains fence_open gap" and "p < length gap"
  shows "\<not> prefix fence_open (drop p (gap @ fence_open @ s))"
proof
  assume a: "prefix fence_open (drop p (gap @ fence_open @ s))"
  from assms have n: "\<not> prefix fence_open (drop p gap)"
    by (simp add: contains_iff)
  from prefix_straddle [OF a assms(2) n] obtain k where
    k: "0 < k" "k < length fence_open" "prefix (drop k fence_open) (fence_open @ s)"
    by blast
  have "length (drop k fence_open) \<le> length fence_open" by simp
  with k(3) have "prefix (drop k fence_open) fence_open"
    by (metis prefix_length_prefix prefixI)
  with fence_open_unbordered k(1,2) show False by auto
qed

lemma no_fence_in_body:
  assumes "\<not> contains fence body" and "body \<noteq> []" and "last body \<notin> set fence" and "p < length body"
  shows "\<not> prefix fence (drop p (body @ s))"
proof
  assume a: "prefix fence (drop p (body @ s))"
  from assms(1,4) have n: "\<not> prefix fence (drop p body)"
    by (simp add: contains_iff)
  from prefix_straddle [OF a assms(4) n] obtain k where
    k: "0 < k" "take k fence = drop p body"
    by blast
  from assms(4) have "drop p body \<noteq> []" by simp
  then have "last (drop p body) = last body" using assms(4) by simp
  moreover have "last (drop p body) \<in> set (take k fence)"
    using k(2) \<open>drop p body \<noteq> []\<close> by (metis last_in_set)
  ultimately have "last body \<in> set fence"
    using in_set_takeD [of "last body" k fence] by simp
  with assms(3) show False by simp
qed

lemma find_fence_after_body:
  assumes "well_formed_body body"
  shows "find_str fence (body @ fence @ s) = Some (length body)"
proof -
  from assms have b: "\<not> contains fence body" "body \<noteq> []" "last body \<notin> set fence"
    by (simp_all add: well_formed_body_def fence_def newline_def)
  have "\<forall>p<length body. \<not> prefix fence (drop p (body @ fence @ s))"
    using no_fence_in_body [OF b] by blast
  then show ?thesis by (simp add: find_str_Some_iff)
qed

lemma findall_skip:
  "\<forall>p<length g. \<not> prefix fence_open (drop p (g @ s)) \<Longrightarrow> findall_blocks (g @ s) = findall_blocks s"
proof (induction g)
  case Nil
  then show ?case by simp
next
  case (Cons c g)
  from Cons.prems have "\<not> prefix fence_open (drop 0 ((c # g) @ s))" by blast
  then have "findall_blocks ((c # g) @ s) = findall_blocks (g @ s)"
    by (simp add: findall_blocks.simps(2))
  moreover have "\<forall>p<length g. \<not> prefix fence_open (drop p (g @ s))"
  proof (intro allI impI)
    fix p assume "p < length g"
    with Cons.prems [rule_format, of "Suc p"] show "\<not> prefix fence_open (drop p (g @ s))" by simp
  qed
  ultimately show ?case using Cons.IH by simp
qed

lemma findall_at_open:
  assumes "find_str fence r = Some j"
  shows "findall_blocks (fence_open @ r) = take j r # findall_blocks (drop (j + length fence) r)"
proof -
  obtain c cs where c: "fence_open @ r = c # cs"
    by (cases "fence_open @ r") (simp_all add: fence_open_def)
  have "prefix fence_open (c # cs)" "drop (length fence_open) (c # cs) = r"
    unfolding c [symmetric] by simp_all
  with assms show ?thesis
    unfolding c by (simp add: findall_blocks.simps(2))
qed

lemma findall_pair:
  assumes "\<not> contains fence_open gap" and "well_formed_body body"
  shows "findall_blocks (gap @ fence_open @ body @ fence @ s) = body # findall_blocks s"
proof -
  have "findall_blocks (gap @ fence_open @ body @ fence @ s) =
        findall_blocks (fence_open @ body @ fence @ s)"
    using no_opener_in_gap [OF assms(1)] by (intro findall_skip) blast
  also have "\<dots> = body # findall_blocks s"
    using findall_at_open [OF find_fence_after_body [OF assms(2), of s]] by simp
  finally show ?thesis .
qed

lemma findall_document:
  "\<forall>(gap, body)\<in>set pairs. \<not> contains fence_open gap \<and> well_formed_body body \<Longrightarrow>
     findall_blocks (document pairs rest) = map snd pairs @ findall_blocks rest"
  by (induction pairs) (auto simp: findall_pair)

lemma findall_no_opener: "\<not> contains fence_open s \<Longrightarrow> findall_blocks s = []"
proof -
  assume "\<not> contains fence_open s"
  then have "\<forall>p<length s. \<not> prefix fence_open (drop p (s @ []))"
    by (simp add: contains_iff)
  from findall_skip [OF this] show ?thesis by simp
qed


lemma contains_drop: "contains pat (drop n s) \<Longrightarrow> contains pat s"
proof -
  assume "contains pat (drop n s)"
  then obtain p where p: "p \<le> length (drop n s)" "prefix pat (drop p (drop n s))"
    by (auto simp: contains_iff)
  show ?thesis
  proof (cases "n \<le> length s")
    case True
    with p have "p + n \<le> length s" "prefix pat (drop (p + n) s)" by simp_all
    then show ?thesis unfolding contains_iff by blast
  next
    case False
    with p have "prefix pat (drop (length s) s)" by simp
    then show ?thesis unfolding contains_iff by blast
  qed
qed

lemma findall_no_fence_behind:
  "\<not> contains fence (drop (length fence_open) s) \<Longrightarrow> findall_blocks s = []"
proof (induction s)
  case Nil
  then show ?case by simp
next
  case (Cons c cs)
  have "drop (length fence_open) cs = drop 1 (drop (length fence_open) (c # cs))"
    by (simp add: fence_open_def)
  with Cons.prems contains_drop have "\<not> contains fence (drop (length fence_open) cs)"
    by metis
  with Cons.IH have "findall_blocks cs = []" .
  moreover from Cons.prems have "find_str fence (drop (length fence_open) (c # cs)) = None"
    by (simp add: contains_def)
  ultimately show ?case by (simp add: findall_blocks.simps(2))
qed

section \<open>Properties of the validators\<close>

lemma contains_empty: "pat \<noteq> [] \<Longrightarrow> \<not> contains pat []"
  by (simp add: contains_def)

lemma skipped_nonempty:
  "\<exists>skip\<in>set skip_patterns. contains skip s \<Longrightarrow> s \<noteq> []"
  by (auto simp: skip_patterns_def contains_def)



lemma contains_sublist: "contains pat s \<longleftrightarrow> sublist pat s"
proof
  assume "contains pat s"
  then obtain p where "p \<le> length s" "prefix pat (drop p s)"
    by (auto simp: contains_iff)
  then obtain zs where "drop p s = pat @ zs" by (auto simp: prefix_def)
  then have "s = take p s @ pat @ zs" by (metis append_take_drop_id)
  then show "sublist pat s" unfolding sublist_def by blast
next
  assume "sublist pat s"
  then obtain ps ss where "s = ps @ pat @ ss" unfolding sublist_def by blast
  then have "length ps \<le> length s" "prefix pat (drop (length ps) s)" by simp_all
  then show "contains pat s" unfolding contains_iff by blast
qed

lemma sublist_dropWhile:
  assumes "pat \<noteq> []" and "\<not> P (hd pat)" and "sublist pat s"
  shows "sublist pat (dropWhile P s)"
proof -
  from assms(3) obtain ps ss where s: "s = ps @ pat @ ss" unfolding sublist_def by blast
  have "sublist pat (dropWhile P (ps @ pat @ ss))"
  proof (induction ps)
    case Nil
    from assms(1,2) have "dropWhile P (pat @ ss) = pat @ ss"
      by (cases pat) simp_all
    then show ?case by simp
  next
    case (Cons x ps)
    show ?case
    proof (cases "P x")
      case True
      with Cons show ?thesis by simp
    next
      case False
      then have "dropWhile P ((x # ps) @ pat @ ss) = (x # ps) @ pat @ ss" by simp
      then show ?thesis unfolding sublist_def by metis
    qed
  qed
  with s show ?thesis by simp
qed

lemma sublist_strip:
  assumes "pat \<noteq> []" and "\<not> is_space (hd pat)" and "\<not> is_space (last pat)"
  shows "contains pat (strip s) \<longleftrightarrow> contains pat s"
proof
  assume "contains pat (strip s)"
  then have "sublist pat (rev (dropWhile is_space (rev (dropWhile is_space s))))"
    by (simp add: contains_sublist strip_def)
  then have "sublist (rev pat) (dropWhile is_space (rev (dropWhile is_space s)))"
    by (metis sublist_rev rev_rev_ident)
  moreover have "suffix (dropWhile is_space (rev (dropWhile is_space s))) (rev (dropWhile is_space s))"
    by (rule suffix_dropWhile)
  ultimately have "sublist (rev pat) (rev (dropWhile is_space s))"
    by (meson suffix_imp_sublist sublist_order.order_trans)
  then have "sublist pat (dropWhile is_space s)" by (simp add: sublist_rev)
  moreover have "suffix (dropWhile is_space s) s" by (rule suffix_dropWhile)
  ultimately show "contains pat s"
    unfolding contains_sublist by (meson suffix_imp_sublist sublist_order.order_trans)
next
  assume "contains pat s"
  then have "sublist pat (dropWhile is_space s)"
    using assms(1,2) by (simp add: contains_sublist sublist_dropWhile)
  then have "sublist (rev pat) (rev (dropWhile is_space s))" by (simp add: sublist_rev)
  moreover from assms have "rev pat \<noteq> []" "\<not> is_space (hd (rev pat))"
    by (simp_all add: hd_rev)
  ultimately have "sublist (rev pat) (dropWhile is_space (rev (dropWhile is_space s)))"
    by (rule sublist_dropWhile [rotated 2])
  then have "sublist pat (rev (dropWhile is_space (rev (dropWhile is_space s))))"
    by (metis sublist_rev rev_rev_ident)
  then show "contains pat (strip s)" by (simp add: contains_sublist strip_def)
qed




lemma skip_patterns_strip:
  assumes "skip \<in> set skip_patterns"
  shows "contains skip (strip s) \<longleftrightarrow> contains skip s"
proof -
  from assms have "skip \<noteq> []" "\<not> is_space (hd skip)" "\<not> is_space (last skip)"
    by (auto simp: skip_patterns_def is_space_def)
  then show ?thesis by (rule sublist_strip)
qed

lemma run_block_skipped:
  assumes "\<exists>skip\<in>set skip_patterns. contains skip (strip block)"
  shows "run_block I i block st = Normal (st\<lparr>printed := printed st @ [Block_SKIPPED i]\<rparr>)"
  using assms skipped_nonempty [OF assms] by (simp add: run_block_def list_ex_iff)



lemma run_blocks_append:
  "run_blocks I i (pre @ rest) st =
     (case run_blocks I i pre st of
        Normal st' \<Rightarrow> run_blocks I (i + length pre) rest st'
      | Propagates e st' \<Rightarrow> Propagates e st'
      | Stuck \<Rightarrow> Stuck)"
  by (induction pre arbitrary: i st) (auto split: outcome.splits)










lemma first_failing_block:
  assumes "\<exists>b\<in>set blocks. strip b \<noteq> [] \<and> ast_parse (strip b) \<noteq> Parsed"
  shows "\<exists>pre block rest. blocks = pre @ block # rest \<and>
           (\<forall>b\<in>set pre. strip b = [] \<or> ast_parse (strip b) = Parsed) \<and>
           strip block \<noteq> [] \<and> ast_parse (strip block) \<noteq> Parsed"
proof -
  from split_list_first_prop [OF assms] obtain pre block rest where
    "blocks = pre @ block # rest"
    "strip block \<noteq> [] \<and> ast_parse (strip block) \<noteq> Parsed"
    "\<forall>b\<in>set pre. \<not> (strip b \<noteq> [] \<and> ast_parse (strip b) \<noteq> Parsed)"
    by blast
  then show ?thesis by blast
qed


lemma syntax_loop_ok_prefix:
  assumes "\<forall>b\<in>set pre. strip b = [] \<or> ast_parse (strip b) = Parsed"
  shows "syntax_loop ast_parse i (pre @ rest) st =
           syntax_loop ast_parse (i + length pre) rest
             (st\<lparr>parsed := parsed st @ filter (\<lambda>t. t \<noteq> []) (map strip pre),
                 syntax_printed := syntax_printed st @ ok_lines i pre\<rparr>)"
  using assms
proof (induction pre arbitrary: i st)
  case Nil
  then show ?case by simp
next
  case (Cons b pre)
  then have "\<forall>b\<in>set pre. strip b = [] \<or> ast_parse (strip b) = Parsed" by simp
  note IH = Cons.IH [OF this]
  show ?case
  proof (cases "strip b = []")
    case True
    with IH [of "Suc i" st] show ?thesis by simp
  next
    case False
    with Cons.prems have "ast_parse (strip b) = Parsed" by simp
    with False
      IH [of "Suc i" "st\<lparr>parsed := parsed st @ [strip b],
                          syntax_printed := syntax_printed st @ [Block_OK i]\<rparr>"]
    show ?thesis by simp
  qed
qed



lemma strip_id:
  assumes "s \<noteq> []" and "\<not> is_space (hd s)" and "\<not> is_space (last s)"
  shows "strip s = s"
proof -
  from assms(1,2) have 1: "dropWhile is_space s = s" by (cases s) simp_all
  from assms(1,3) have "dropWhile is_space (rev s) = rev s"
    by (cases "rev s") (simp_all add: last_rev [symmetric] hd_rev)
  with 1 show ?thesis by (simp add: strip_def)
qed

lemma strip_deep_sum: "strip deep_sum = deep_sum"
  by (rule strip_id) (simp_all add: deep_sum_def is_space_def)



lemma strip_wrapped:
  assumes "s \<noteq> []" and "\<not> is_space (hd s)" and "\<not> is_space (last s)"
  shows "strip (newline # s @ [newline]) = s"
proof -
  have n: "is_space newline" by (simp add: newline_def is_space_def)
  from assms(1,2) have 1: "dropWhile is_space (s @ [newline]) = s @ [newline]"
    by (cases s) simp_all
  from assms(1,3) have 2: "dropWhile is_space (rev s) = rev s"
    by (cases "rev s") (simp_all add: last_rev [symmetric] hd_rev)
  show ?thesis by (simp add: strip_def n 1 2)
qed

lemma contains_set: "contains pat s \<Longrightarrow> set pat \<subseteq> set s"
  by (auto simp: contains_sublist sublist_def)

lemma deep_sum_chars: "set deep_sum = {CHR ''1'', CHR ''+''}"
  by (auto simp: deep_sum_def)

lemma deep_sum_body: "well_formed_body (newline # deep_sum @ [newline])"
proof -
  have "\<not> contains fence (newline # deep_sum @ [newline])"
  proof
    assume "contains fence (newline # deep_sum @ [newline])"
    from contains_set [OF this] show False
      by (simp add: fence_def deep_sum_chars newline_def)
  qed
  then show ?thesis by (simp add: well_formed_body_def)
qed

lemma strip_deep_sum_body: "strip (newline # deep_sum @ [newline]) = deep_sum"
  by (rule strip_wrapped) (simp_all add: deep_sum_def is_space_def)

lemma deep_sum_distinct:
  "deep_sum \<noteq> []" "deep_sum \<noteq> ''def f(:''" "''def f(:'' \<noteq> deep_sum"
  "deep_sum \<noteq> ''x = 1''" "''x = 1'' \<noteq> deep_sum"
  by (simp_all add: deep_sum_def)





section \<open>Claims about the Extractor\<close>

text \<open>
  C1 (counterexample). The document below is one fence pair as the specification describes
  it: the opener followed by a newline, and a closing fence alone on the last line. The
  text between them is the line \<^verbatim>\<open>s = "```"\<close>. The pattern has no notion of lines: it
  closes the block at the first fence behind the opener, here the one inside the string
  literal, so the block returned is not the text between the opener and its closer.
\<close>

theorem extract_inline_fence_counterexample:
  \<open>findall_blocks (fence_open @ ''\<newline>s = "```"\<newline>'' @ fence @ ''\<newline>'') = [''\<newline>s = "'']\<close>
  by code_simp

text \<open>
  C1 (as amended). For every document made of \<open>K\<close> fence pairs, where no opener occurs in
  the text before a pair or behind the last one, and where each pair is well formed with
  no fence inside its body, the extraction returns exactly the \<open>K\<close> bodies, in document
  order. A body is the text from the closing brace of the opener to the closing fence,
  unchanged, blank lines included; it starts with the newline that ends the opener's line.
\<close>

theorem extract_fence_pairs:
  assumes "\<forall>(gap, body)\<in>set pairs. \<not> contains fence_open gap \<and> well_formed_body body"
    and "\<not> contains fence_open rest"
  shows "findall_blocks (document pairs rest) = map snd pairs"
  using findall_document [OF assms(1), of rest] findall_no_opener [OF assms(2)] by simp

text \<open>C1 (witness): two pairs, a blank line inside the first, a shell fence between them.\<close>

theorem extract_fence_pairs_witness:
  "findall_blocks
     (document
        [(''Intro\<newline>'', ''\<newline>x = 1\<newline>\<newline>y = 2\<newline>''),
         (''\<newline>Shell:\<newline>```bash\<newline>ls\<newline>```\<newline>'', ''\<newline>print(x + y)\<newline>'')]
        ''\<newline>The end.\<newline>'')
   = [''\<newline>x = 1\<newline>\<newline>y = 2\<newline>'', ''\<newline>print(x + y)\<newline>'']"
proof -
  have h1: "\<forall>(gap, body)\<in>set
        [(''Intro\<newline>'', ''\<newline>x = 1\<newline>\<newline>y = 2\<newline>''),
         (''\<newline>Shell:\<newline>```bash\<newline>ls\<newline>```\<newline>'', ''\<newline>print(x + y)\<newline>'')].
      \<not> contains fence_open gap \<and> well_formed_body body"
    by code_simp
  have h2: "\<not> contains fence_open ''\<newline>The end.\<newline>''"
    by code_simp
  show ?thesis
    using extract_fence_pairs [OF h1 h2] by simp
qed

text \<open>
  C9 (counterexample). An opener without a closer of its own, followed by a well-formed
  pair with body \<open>B\<close>: the pattern closes the first opener at the fence that begins the
  second opener. The dangling opener yields a block, and the pair behind it yields none.
\<close>

theorem dangling_opener_counterexample:
  "findall_blocks ''```{python}\<newline>A\<newline>```{python}\<newline>B\<newline>```\<newline>'' = [''\<newline>A\<newline>'']"
  by code_simp

text \<open>
  C9 (as amended). Let a document consist of \<open>K\<close> well-formed fence pairs (no opener in the
  text before a pair, no fence inside a body), then a text without an opener, then an
  opener behind which no fence occurs up to the end of the document. The extraction
  returns exactly the \<open>K\<close> bodies, unchanged and in document order: the dangling opener
  starts no block and alters no block before it. (An opener that is followed by any fence
  is closed at that fence, as the counterexample shows; what the extraction returns
  behind it is not what the fence pairs say.)
\<close>

theorem dangling_opener_at_end:
  assumes "\<forall>(gap, body)\<in>set pairs. \<not> contains fence_open gap \<and> well_formed_body body"
    and "\<not> contains fence_open gap" and "\<not> contains fence rest"
  shows "findall_blocks (document pairs (gap @ fence_open @ rest)) = map snd pairs"
proof -
  have "findall_blocks (gap @ fence_open @ rest) = findall_blocks (fence_open @ rest)"
    using no_opener_in_gap [OF assms(2)] by (intro findall_skip) blast
  also have "\<dots> = []"
    using assms(3) by (intro findall_no_fence_behind) simp
  finally show ?thesis
    using findall_document [OF assms(1)] by simp
qed

text \<open>C9 (witness): one pair, then an opener whose text runs to the end of the document.\<close>

theorem dangling_opener_at_end_witness:
  "findall_blocks
     (document [(''Intro\<newline>'', ''\<newline>x = 1\<newline>'')]
        (''\<newline>Then:\<newline>'' @ fence_open @ ''\<newline>y = 2\<newline>''))
   = [''\<newline>x = 1\<newline>'']"
proof -
  have h1: "\<forall>(gap, body)\<in>set [(''Intro\<newline>'', ''\<newline>x = 1\<newline>'')].
      \<not> contains fence_open gap \<and> well_formed_body body"
    by code_simp
  have h2: "\<not> contains fence_open ''\<newline>Then:\<newline>''"
    by code_simp
  have h3: "\<not> contains fence ''\<newline>y = 2\<newline>''"
    by code_simp
  show ?thesis
    using dangling_opener_at_end [OF h1 h2 h3] by simp
qed

section \<open>Claims about the Execution Validator\<close>




text \<open>
  C3. For every block whose trimmed text contains one of the exclusion substrings, at any
  index, in any state and whatever the interpreter would do: the block is reported as
  skipped, \<open>exec\<close> is not called, and the environment stays as it was. Within a
  sequence, whatever the blocks before and after it are, the run goes on behind the block
  in the state the blocks before it left, with only the line \<open>SKIPPED\<close> added.
\<close>

theorem excluded_block_skipped:
  assumes "\<exists>skip\<in>set skip_patterns. contains skip (strip block)"
  shows "run_block I i block st = Normal (st\<lparr>printed := printed st @ [Block_SKIPPED i]\<rparr>) \<and>
         run_blocks I i (pre @ block # rest) st0 =
           (case run_blocks I i pre st0 of
              Normal st' \<Rightarrow>
                run_blocks I (i + length pre + 1) rest
                  (st'\<lparr>printed := printed st' @ [Block_SKIPPED (i + length pre)]\<rparr>)
            | Propagates e st' \<Rightarrow> Propagates e st'
            | Stuck \<Rightarrow> Stuck)"
  by (simp add: run_blocks_append run_block_skipped [OF assms] split: outcome.splits)

text \<open>C3 (witness): a block that defines \<open>f\<close> and then calls \<open>pool.map(\<close>.\<close>

theorem excluded_block_skipped_witness:
  "run_block python 2 ''\<newline>def f(): return 1\<newline>results = pool.map(f, [1, 2])\<newline>''
     \<lparr>printed = [Block_EXECUTED 1], called = [Exec ''x = 1''], test_env = [''x'' \<mapsto> Py_obj ''1'']\<rparr>
   = Normal \<lparr>printed = [Block_EXECUTED 1, Block_SKIPPED 2], called = [Exec ''x = 1''],
            test_env = [''x'' \<mapsto> Py_obj ''1'']\<rparr>"
proof -
  have h: "\<exists>skip\<in>set skip_patterns.
      contains skip (strip ''\<newline>def f(): return 1\<newline>results = pool.map(f, [1, 2])\<newline>'')"
    by code_simp
  show ?thesis
    using excluded_block_skipped [OF h, of python 2 _ "[]" "[]"] by simp
qed



text \<open>
  C10. The exclusion substrings are looked for in the whole trimmed block, before the
  guard is considered: for every block with the first occurrence of the guard literal at
  index \<open>k\<close> and an exclusion substring in the part from \<open>k\<close> on (the driver section that
  the stripping would discard), the block is reported as skipped, \<open>exec\<close> is not called,
  not even on the part before the guard, and the environment stays as it was.
\<close>

theorem exclusion_before_guard_stripping:
  assumes "find_str main_guard block = Some k"
    and "\<exists>skip\<in>set skip_patterns. contains skip (drop k block)"
  shows "run_block I i block st = Normal (st\<lparr>printed := printed st @ [Block_SKIPPED i]\<rparr>)"
proof -
  from assms(2) obtain skip where
    "skip \<in> set skip_patterns" "contains skip (drop k block)"
    by blast
  then have "skip \<in> set skip_patterns" "contains skip (strip block)"
    using contains_drop [of skip k block] by (simp_all add: skip_patterns_strip)
  then have "\<exists>skip\<in>set skip_patterns. contains skip (strip block)" by blast
  then show ?thesis by (rule run_block_skipped)
qed

text \<open>C10 (witness): \<open>f\<close> defined before the guard, \<open>mp.Pool(\<close> only behind it; \<open>f\<close> is not bound.\<close>

theorem exclusion_before_guard_stripping_witness:
  \<open>run_block python 1
     ''\<newline>def f(): return 1\<newline>\<newline>if __name__ == "__main__":\<newline>    with mp.Pool(2) as p:\<newline>        print(f())\<newline>''
     \<lparr>printed = [], called = [], test_env = Map.empty\<rparr>
   = Normal \<lparr>printed = [Block_SKIPPED 1], called = [], test_env = Map.empty\<rparr>\<close>
proof -
  let ?b = \<open>''\<newline>def f(): return 1\<newline>\<newline>if __name__ == "__main__":\<newline>    with mp.Pool(2) as p:\<newline>        print(f())\<newline>''\<close>
  have h1: "find_str main_guard ?b = Some 20"
    by code_simp
  have h2: "\<exists>skip\<in>set skip_patterns. contains skip (drop 20 ?b)"
    by code_simp
  show ?thesis
    using exclusion_before_guard_stripping [OF h1 h2, of python 1] by simp
qed







section \<open>Claims about the Syntax Validator\<close>

text \<open>
  C7 (counterexample). The document has two blocks: the sum \<open>1+1+...+1\<close> of 5000 terms,
  then \<^verbatim>\<open>def f(:\<close>. On the first block \<open>ast.parse\<close> raises \<open>RecursionError\<close>, which
  the handler of \<open>SyntaxError\<close> does not catch: the outer handler prints
  \<open>Error reading file\<close> with the message. No index and no preview are printed, and the
  malformed second block is not reached.
\<close>

theorem recursion_error_counterexample:
  "test_multiprocessing_syntax
     (Content (fence_open @ ''\<newline>'' @ deep_sum @ ''\<newline>'' @ fence @ ''\<newline>'' @
               fence_open @ ''\<newline>def f(:\<newline>'' @ fence @ ''\<newline>''))
     demo_parse
   = (False,
      \<lparr>syntax_printed =
         [Testing_syntax, Syntax_found 2,
          Error_reading_file ''maximum recursion depth exceeded during ast construction''],
       parsed = [deep_sum]\<rparr>)"
proof -
  have g: "\<not> contains fence_open ''\<newline>''" "well_formed_body ''\<newline>def f(:\<newline>''"
    by code_simp+
  have "fence_open @ ''\<newline>'' @ deep_sum @ ''\<newline>'' @ fence @ ''\<newline>'' @
        fence_open @ ''\<newline>def f(:\<newline>'' @ fence @ ''\<newline>''
      = document [([], newline # deep_sum @ [newline]), (''\<newline>'', ''\<newline>def f(:\<newline>'')]
          ''\<newline>''"
    by (simp add: newline_def)
  moreover have "findall_blocks
      (document [([], newline # deep_sum @ [newline]), (''\<newline>'', ''\<newline>def f(:\<newline>'')]
         ''\<newline>'')
      = [newline # deep_sum @ [newline], ''\<newline>def f(:\<newline>'']"
    using findall_document [of "[([], newline # deep_sum @ [newline]),
        (''\<newline>'', ''\<newline>def f(:\<newline>'')]" "''\<newline>''"]
      findall_no_opener [OF g(1)] g deep_sum_body contains_empty [of fence_open]
    by (simp add: fence_open_def)
  ultimately have b: "findall_blocks
      (fence_open @ ''\<newline>'' @ deep_sum @ ''\<newline>'' @ fence @ ''\<newline>'' @
       fence_open @ ''\<newline>def f(:\<newline>'' @ fence @ ''\<newline>'')
      = [newline # deep_sum @ [newline], ''\<newline>def f(:\<newline>'']"
    by simp
  note d = deep_sum_distinct
  show ?thesis
    by (simp add: test_multiprocessing_syntax_def b [simplified]
        strip_deep_sum_body [simplified] d demo_parse_def)
qed

text \<open>
  C7 (as amended). Let the blocks before a block be blank or parse, and let the block be
  non-blank. When \<open>ast.parse\<close> raises \<open>SyntaxError\<close> on its trimmed text, the Syntax
  Validator returns \<open>False\<close> at this block: it has called the parser on the non-blank
  blocks up to this one and on no block behind it, and after the \<open>OK\<close> lines of the blocks
  before it has printed the 1-based index of the block with the message of the parser,
  and the first 100 characters of the trimmed block. When \<open>ast.parse\<close> raises another
  instance of \<open>Exception\<close> there, the validator also returns \<open>False\<close> at this block
  without a call of the parser behind it, but prints \<open>Error reading file\<close> with the
  message, and neither the index nor a preview. Blank blocks are passed over without a
  call of the parser. Every sequence with a non-blank block on which the parser raises
  has this form, at its first such block (\<open>first_failing_block\<close>).
\<close>

theorem syntax_fail_fast:
  assumes "findall_blocks content = pre @ block # rest"
    and "\<forall>b\<in>set pre. strip b = [] \<or> ast_parse (strip b) = Parsed"
    and "strip block \<noteq> []"
  shows "(ast_parse (strip block) = Raises_SyntaxError e \<longrightarrow>
            test_multiprocessing_syntax (Content content) ast_parse =
              (False,
               \<lparr>syntax_printed =
                  [Testing_syntax, Syntax_found (length pre + 1 + length rest)] @
                  ok_lines 1 pre @
                  [Block_SYNTAX_ERROR (length pre + 1) e,
                   Block_content_preview (take 100 (strip block))],
                parsed = filter (\<lambda>t. t \<noteq> []) (map strip pre) @ [strip block]\<rparr>)) \<and>
         (ast_parse (strip block) = Raises_other_Exception e \<longrightarrow>
            test_multiprocessing_syntax (Content content) ast_parse =
              (False,
               \<lparr>syntax_printed =
                  [Testing_syntax, Syntax_found (length pre + 1 + length rest)] @
                  ok_lines 1 pre @ [Error_reading_file e],
                parsed = filter (\<lambda>t. t \<noteq> []) (map strip pre) @ [strip block]\<rparr>))"
  using assms(3)
  by (simp add: test_multiprocessing_syntax_def assms(1) syntax_loop_ok_prefix [OF assms(2)])

text \<open>
  C7 (witness): five blocks, the second blank, the third and the fifth malformed; the
  failure is reported at index 3. Then two blocks, the second the sum of 5000 terms.
\<close>

theorem syntax_fail_fast_witness:
  "test_multiprocessing_syntax
     (Content ''```{python}\<newline>x = 1\<newline>```\<newline>```{python}\<newline>  \<newline>```\<newline>```{python}\<newline>def f(:\<newline>```\<newline>```{python}\<newline>y = 2\<newline>```\<newline>```{python}\<newline>def f(:\<newline>```\<newline>'')
     demo_parse
   = (False,
      \<lparr>syntax_printed =
         [Testing_syntax, Syntax_found 5, Block_OK 1,
          Block_SYNTAX_ERROR 3 ''invalid syntax (<unknown>, line 1)'',
          Block_content_preview ''def f(:''],
       parsed = [''x = 1'', ''def f(:'']\<rparr>) \<and>
   test_multiprocessing_syntax
     (Content (fence_open @ ''\<newline>x = 1\<newline>'' @ fence @ ''\<newline>'' @
               fence_open @ ''\<newline>'' @ deep_sum @ ''\<newline>'' @ fence @ ''\<newline>''))
     demo_parse
   = (False,
      \<lparr>syntax_printed =
         [Testing_syntax, Syntax_found 2, Block_OK 1,
          Error_reading_file ''maximum recursion depth exceeded during ast construction''],
       parsed = [''x = 1'', deep_sum]\<rparr>)"
proof -
  have b: "findall_blocks ''```{python}\<newline>x = 1\<newline>```\<newline>```{python}\<newline>  \<newline>```\<newline>```{python}\<newline>def f(:\<newline>```\<newline>```{python}\<newline>y = 2\<newline>```\<newline>```{python}\<newline>def f(:\<newline>```\<newline>''
      = [''\<newline>x = 1\<newline>'', ''\<newline>  \<newline>''] @ ''\<newline>def f(:\<newline>'' #
        [''\<newline>y = 2\<newline>'', ''\<newline>def f(:\<newline>'']"
    by code_simp
  have s: "strip ''\<newline>x = 1\<newline>'' = ''x = 1''" "strip ''\<newline>  \<newline>'' = []"
      "strip ''\<newline>def f(:\<newline>'' = ''def f(:''"
    by code_simp+
  note d = deep_sum_distinct
  have h1: "\<forall>b\<in>set [''\<newline>x = 1\<newline>'', ''\<newline>  \<newline>'']. strip b = [] \<or> demo_parse (strip b) = Parsed"
    by (simp add: s d demo_parse_def)
  have h2: "strip ''\<newline>def f(:\<newline>'' \<noteq> []"
    by (simp add: s)
  have h3: "demo_parse (strip ''\<newline>def f(:\<newline>'')
      = Raises_SyntaxError ''invalid syntax (<unknown>, line 1)''"
    by (simp add: s demo_parse_def)
  have 1: "test_multiprocessing_syntax
     (Content ''```{python}\<newline>x = 1\<newline>```\<newline>```{python}\<newline>  \<newline>```\<newline>```{python}\<newline>def f(:\<newline>```\<newline>```{python}\<newline>y = 2\<newline>```\<newline>```{python}\<newline>def f(:\<newline>```\<newline>'')
     demo_parse
   = (False,
      \<lparr>syntax_printed =
         [Testing_syntax, Syntax_found 5, Block_OK 1,
          Block_SYNTAX_ERROR 3 ''invalid syntax (<unknown>, line 1)'',
          Block_content_preview ''def f(:''],
       parsed = [''x = 1'', ''def f(:'']\<rparr>)"
    using syntax_fail_fast [OF b h1 h2, where e = "''invalid syntax (<unknown>, line 1)''"] h3
    by (simp add: s)
  have g: "\<not> contains fence_open ''\<newline>''" "well_formed_body ''\<newline>x = 1\<newline>''"
    by code_simp+
  have "fence_open @ ''\<newline>x = 1\<newline>'' @ fence @ ''\<newline>'' @
        fence_open @ ''\<newline>'' @ deep_sum @ ''\<newline>'' @ fence @ ''\<newline>''
      = document [([], ''\<newline>x = 1\<newline>''), (''\<newline>'', newline # deep_sum @ [newline])]
          ''\<newline>''"
    by (simp add: newline_def)
  moreover have "findall_blocks
      (document [([], ''\<newline>x = 1\<newline>''), (''\<newline>'', newline # deep_sum @ [newline])]
         ''\<newline>'')
      = [''\<newline>x = 1\<newline>'', newline # deep_sum @ [newline]]"
    using findall_document [of "[([], ''\<newline>x = 1\<newline>''),
        (''\<newline>'', newline # deep_sum @ [newline])]" "''\<newline>''"]
      findall_no_opener [OF g(1)] g deep_sum_body contains_empty [of fence_open]
    by (simp add: fence_open_def)
  ultimately have b2: "findall_blocks
      (fence_open @ ''\<newline>x = 1\<newline>'' @ fence @ ''\<newline>'' @
       fence_open @ ''\<newline>'' @ deep_sum @ ''\<newline>'' @ fence @ ''\<newline>'')
      = [''\<newline>x = 1\<newline>''] @ (newline # deep_sum @ [newline]) # []"
    by simp
  have k1: "\<forall>b\<in>set [''\<newline>x = 1\<newline>'']. strip b = [] \<or> demo_parse (strip b) = Parsed"
    by (simp add: s d demo_parse_def)
  have k2: "strip (newline # deep_sum @ [newline]) \<noteq> []"
    by (simp add: strip_deep_sum_body d)
  have k3: "demo_parse (strip (newline # deep_sum @ [newline]))
      = Raises_other_Exception ''maximum recursion depth exceeded during ast construction''"
    by (simp add: strip_deep_sum_body d demo_parse_def)
  have 2: "test_multiprocessing_syntax
     (Content (fence_open @ ''\<newline>x = 1\<newline>'' @ fence @ ''\<newline>'' @
               fence_open @ ''\<newline>'' @ deep_sum @ ''\<newline>'' @ fence @ ''\<newline>''))
     demo_parse
   = (False,
      \<lparr>syntax_printed =
         [Testing_syntax, Syntax_found 2, Block_OK 1,
          Error_reading_file ''maximum recursion depth exceeded during ast construction''],
       parsed = [''x = 1'', deep_sum]\<rparr>)"
    using syntax_fail_fast [OF b2 k1 k2,
        where e = "''maximum recursion depth exceeded during ast construction''"] k3
    by (simp add: s strip_deep_sum_body)
  from 1 2 show ?thesis by (rule conjI)
qed

section \<open>Claims about the exit codes\<close>




end
